theory Spec2Isabelle
  imports Complex_Main "HOL-Library.Word"
begin

section \<open>Floating-point numbers\<close>

text \<open>
  A Python float and a coordinate of \<open>pygame.math.Vector2\<close> are IEEE 754 doubles: a
  finite value, an infinity, or not-a-number. \<open>Finite 0\<close> is the zero of positive sign
  and \<open>NegZero\<close> the zero of negative sign. The finite values that the operations
  yield are the reals a double can hold.
\<close>

datatype double = Finite real | NegZero | PInf | NInf | NaN

definition is_neg :: "double \<Rightarrow> bool" where
  "is_neg a = (case a of Finite x \<Rightarrow> x < 0 | NegZero \<Rightarrow> True | PInf \<Rightarrow> False
                 | NInf \<Rightarrow> True | NaN \<Rightarrow> False)"

definition is_zero :: "double \<Rightarrow> bool" where
  "is_zero a = (a = Finite 0 \<or> a = NegZero)"

definition is_inf :: "double \<Rightarrow> bool" where
  "is_inf a = (a = PInf \<or> a = NInf)"


definition value_of :: "double \<Rightarrow> real" where
  "value_of a = (case a of Finite x \<Rightarrow> x | NegZero \<Rightarrow> 0 | PInf \<Rightarrow> 0 | NInf \<Rightarrow> 0 | NaN \<Rightarrow> 0)"

definition signed_inf :: "bool \<Rightarrow> double" where
  "signed_inf neg = (if neg then NInf else PInf)"

definition signed_zero :: "bool \<Rightarrow> double" where
  "signed_zero neg = (if neg then NegZero else Finite 0)"

text \<open>The nearest integer, the even one of the two when they are equally near.\<close>

definition round_even :: "real \<Rightarrow> int" where
  "round_even x =
     (let f = \<lfloor>x\<rfloor>; d = x - of_int f
      in if d < 1 / 2 then f else if 1 / 2 < d then f + 1 else if even f then f else f + 1)"

text \<open>
  Rounding a real to the nearest double, ties to even. A double has 53 bits of
  significand, its least bit is worth \<open>2 ^ e\<close> with \<open>e\<close> from \<open>- 1074\<close> (the subnormal
  numbers) up to 971, and a result of magnitude \<open>2 ^ 1024\<close> or more is an infinity.
  \<open>neg\<close> is the sign of the result when \<open>x\<close> is zero; a nonzero \<open>x\<close> that rounds to
  zero keeps its own sign.
\<close>

definition fround :: "bool \<Rightarrow> real \<Rightarrow> double" where
  "fround neg x =
     (if x = 0 then signed_zero neg
      else
        let e = max (\<lfloor>log 2 \<bar>x\<bar>\<rfloor> - 52) (- 1074);
            m = round_even (x / 2 powr of_int e);
            y = of_int m * 2 powr of_int e
        in if 2 ^ 1024 \<le> \<bar>y\<bar> then signed_inf (x < 0)
           else if m = 0 then signed_zero (x < 0)
           else Finite y)"

text \<open>The arithmetic of doubles, as C and Python compute it.\<close>

definition fneg :: "double \<Rightarrow> double" where
  "fneg a = (case a of Finite x \<Rightarrow> (if x = 0 then NegZero else Finite (- x))
               | NegZero \<Rightarrow> Finite 0 | PInf \<Rightarrow> NInf | NInf \<Rightarrow> PInf | NaN \<Rightarrow> NaN)"

definition fadd :: "double \<Rightarrow> double \<Rightarrow> double" where
  "fadd a b =
     (if a = NaN \<or> b = NaN then NaN
      else if is_inf a then (if is_inf b \<and> a \<noteq> b then NaN else a)
      else if is_inf b then b
      else fround (is_neg a \<and> is_neg b) (value_of a + value_of b))"

definition fsub :: "double \<Rightarrow> double \<Rightarrow> double" where
  "fsub a b = fadd a (fneg b)"

definition fmul :: "double \<Rightarrow> double \<Rightarrow> double" where
  "fmul a b =
     (if a = NaN \<or> b = NaN then NaN
      else if is_inf a \<or> is_inf b then
        (if is_zero a \<or> is_zero b then NaN else signed_inf (is_neg a \<noteq> is_neg b))
      else fround (is_neg a \<noteq> is_neg b) (value_of a * value_of b))"

text \<open>
  Division as C has it, where dividing by zero yields an infinity or not-a-number;
  Python's own \<open>/\<close> raises there, which is modelled where it occurs.
\<close>

definition fdiv :: "double \<Rightarrow> double \<Rightarrow> double" where
  "fdiv a b =
     (if a = NaN \<or> b = NaN then NaN
      else if is_inf a then (if is_inf b then NaN else signed_inf (is_neg a \<noteq> is_neg b))
      else if is_inf b then signed_zero (is_neg a \<noteq> is_neg b)
      else if is_zero b then
        (if is_zero a then NaN else signed_inf (is_neg a \<noteq> is_neg b))
      else fround (is_neg a \<noteq> is_neg b) (value_of a / value_of b))"

definition fsqrt :: "double \<Rightarrow> double" where
  "fsqrt a = (case a of Finite x \<Rightarrow> (if x < 0 then NaN else fround False (sqrt x))
                | NegZero \<Rightarrow> NegZero | PInf \<Rightarrow> PInf | NInf \<Rightarrow> NaN | NaN \<Rightarrow> NaN)"

text \<open>\<open>==\<close> on doubles: the two zeros are equal, not-a-number equals nothing.\<close>

definition feq :: "double \<Rightarrow> double \<Rightarrow> bool" where
  "feq a b = (a \<noteq> NaN \<and> b \<noteq> NaN \<and> (a = b \<or> (is_zero a \<and> is_zero b)))"

section \<open>Vectors and errors\<close>

text \<open>
  A \<open>pygame.math.Vector2\<close> is a pair of doubles, and its operations work on each
  coordinate in double arithmetic. Exceptions of the source are values of \<open>error\<close>.
\<close>

type_synonym vec2 = "double \<times> double"

datatype error = ValueError | TypeError | ZeroDivisionError | SendError

definition vec_add :: "vec2 \<Rightarrow> vec2 \<Rightarrow> vec2" where
  "vec_add a b = (fadd (fst a) (fst b), fadd (snd a) (snd b))"

definition vec_sub :: "vec2 \<Rightarrow> vec2 \<Rightarrow> vec2" where
  "vec_sub a b = (fsub (fst a) (fst b), fsub (snd a) (snd b))"

definition vec_scale :: "vec2 \<Rightarrow> double \<Rightarrow> vec2" where
  "vec_scale a k = (fmul (fst a) k, fmul (snd a) k)"

text \<open>
  The length is the square root of the scalar product of the vector with itself,
  which pygame sums up from zero, coordinate by coordinate.
\<close>

definition vec_length :: "vec2 \<Rightarrow> double" where
  "vec_length a =
     fsqrt (fadd (fadd (Finite 0) (fmul (fst a) (fst a))) (fmul (snd a) (snd a)))"

text \<open>
  \<open>Vector2.normalize()\<close> raises \<open>ValueError\<close> when the computed length equals zero, and
  divides each coordinate by the length otherwise.
\<close>

definition vec_normalize :: "vec2 \<Rightarrow> error + vec2" where
  "vec_normalize a =
     (if is_zero (vec_length a) then Inl ValueError
      else Inr (fdiv (fst a) (vec_length a), fdiv (snd a) (vec_length a)))"

text \<open>Two points with the same coordinates, and a point whose coordinates are finite.\<close>

definition same_point :: "vec2 \<Rightarrow> vec2 \<Rightarrow> bool" where
  "same_point a b = (feq (fst a) (fst b) \<and> feq (snd a) (snd b))"


section \<open>Hitscan beams\<close>

text \<open>
  The fields both \<open>HitscanBeam\<close> classes assign (\<open>weapons/weapon.py\<close> and
  \<open>simulation_object/hitscan_beam.py\<close>). \<open>helpers.get_slope\<close> and
  \<open>helpers.get_sign\<close> belong to another module, so the types of their results are
  parameters.
\<close>

record ('s, 'g) hitscan_beam =
  delta_y :: double
  delta_x :: double
  direction_vector :: vec2
  start_point :: vec2
  end_point :: vec2
  damage :: int
  collision_force :: double
  slope :: 's
  quadrant_info :: "'g \<times> 'g"

text \<open>
  The simulation's beam also holds its owner, a reference to a player object, and the
  identifier its base class assigns.
\<close>

record ('s, 'g) sim_hitscan_beam = "('s, 'g) hitscan_beam" +
  player :: nat
  beam_uuid :: nat

section \<open>Players and \<open>HitscanBeam.step\<close>\<close>

record sim_player =
  uuid :: nat
  health :: int
  velocity :: vec2
  time_of_death :: "int option"
  num_frags :: int

text \<open>
  Player objects are mutable and shared: the beam's owner and the entity the
  intersection test returns may be any two objects, also the same one. The object
  store maps a reference to the object it denotes. What the intersection test returns
  as closest entity is either an object without a \<open>uuid\<close> attribute (a wall) or a
  reference into the store.
\<close>

type_synonym store = "nat \<Rightarrow> sim_player"

datatype entity = NoUuid | Obj nat

text \<open>
  \<open>HitscanBeam.step\<close>, lines 62 to 84. The result of
  \<open>intersections.get_closest_intersecting_object_in_pmg\<close>, of another module, is
  the argument \<open>closest\<close>; \<open>pygame.time.get_ticks()\<close> is \<open>now\<close>;
  \<open>players\<close> is the key set of \<open>SIMULATION.players\<close>.
\<close>

definition step ::
  "('s, 'g) sim_hitscan_beam \<Rightarrow> int \<Rightarrow> vec2 option \<times> entity option \<Rightarrow> nat set \<Rightarrow> store \<Rightarrow> store"
where
  "step beam now closest players st =
     (case closest of
        (Some closest_hit, Some (Obj r)) \<Rightarrow>
          if uuid (st r) \<in> players then
            let st1 = st(r := (st r)\<lparr>health := health (st r) - damage beam\<rparr>) in
            if health (st1 r) \<le> 0 then
              let st2 = st1(r := (st1 r)\<lparr>velocity := (Finite 0, Finite 0)\<rparr>);
                  st3 = (if time_of_death (st2 r) = None
                         then st2(r := (st2 r)\<lparr>time_of_death := Some now\<rparr>)
                         else st2);
                  f = player beam
              in st3(f := (st3 f)\<lparr>num_frags := num_frags (st3 f) + 1\<rparr>)
            else
              st1(r := (st1 r)\<lparr>velocity :=
                    vec_add (velocity (st1 r))
                      (vec_scale (direction_vector beam) (collision_force beam))\<rparr>)
          else st
      | _ \<Rightarrow> st)"

section \<open>Constructing a beam\<close>

text \<open>
  \<open>HitscanBeam.__init__\<close> of \<open>weapons/weapon.py\<close>, lines 30 to 54. All four
  parameters are required: a call that leaves \<open>collision_force\<close> or \<open>damage\<close> out
  raises \<open>TypeError\<close> before the body runs, so the two are optional arguments here.
  \<open>get_slope\<close> and \<open>get_sign\<close> stand for the helpers of the same name, which may
  raise.
\<close>

definition HitscanBeam_init ::
  "(vec2 \<Rightarrow> vec2 \<Rightarrow> error + 's) \<Rightarrow> (double \<Rightarrow> error + 'g) \<Rightarrow>
   vec2 \<Rightarrow> vec2 \<Rightarrow> double option \<Rightarrow> int option \<Rightarrow> error + ('s, 'g) hitscan_beam"
where
  "HitscanBeam_init get_slope get_sign start_pt end_pt force dmg =
     (case (force, dmg) of
        (Some cf, Some d) \<Rightarrow>
          let dy = fsub (snd end_pt) (snd start_pt);
              dx = fsub (fst end_pt) (fst start_pt)
          in (case vec_normalize (vec_sub end_pt start_pt) of
                Inl e \<Rightarrow> Inl e
              | Inr dir \<Rightarrow>
                 (case get_slope start_pt end_pt of
                    Inl e \<Rightarrow> Inl e
                  | Inr sl \<Rightarrow>
                     (case get_sign dx of
                        Inl e \<Rightarrow> Inl e
                      | Inr sx \<Rightarrow>
                         (case get_sign dy of
                            Inl e \<Rightarrow> Inl e
                          | Inr sy \<Rightarrow>
                             Inr \<lparr>delta_y = dy, delta_x = dx, direction_vector = dir,
                                  start_point = start_pt, end_point = end_pt, damage = d,
                                  collision_force = cf, slope = sl,
                                  quadrant_info = (sx, sy)\<rparr>))))
      | _ \<Rightarrow> Inl TypeError)"


section \<open>The radial explosive\<close>

record radial_explosives =
  radius :: double
  power :: double
  num_shards :: int

text \<open>
  \<open>RadialExplosives.activate\<close>, lines 105 to 120. The loop body builds the shard's
  end point and calls \<open>HitscanBeam(pos, shard_vec)\<close>, with two arguments; the first
  exception ends the loop and the call. \<open>polar_to_cartesian\<close> stands for the helper
  of \<open>weapons/helpers\<close>; \<open>math.tau\<close> is the double nearest to \<open>2 * pi\<close>, and an integer
  in a product or quotient with a float is converted to a double first.
\<close>

fun activate_loop ::
  "(vec2 \<Rightarrow> vec2 \<Rightarrow> error + 's) \<Rightarrow> (double \<Rightarrow> error + 'g) \<Rightarrow>
   (double \<Rightarrow> double \<Rightarrow> vec2) \<Rightarrow>
   radial_explosives \<Rightarrow> double \<Rightarrow> vec2 \<Rightarrow> nat list \<Rightarrow> ('s, 'g) hitscan_beam list \<Rightarrow>
   error + ('s, 'g) hitscan_beam list"
where
  "activate_loop get_slope get_sign polar_to_cartesian self angle_fraction pos [] explosion_beams =
     Inr explosion_beams"
| "activate_loop get_slope get_sign polar_to_cartesian self angle_fraction pos (i # is) explosion_beams =
     (let angle = fmul angle_fraction (fround False (real i));
          relative_shard_vec = polar_to_cartesian (radius self) angle;
          shard_vec = vec_add relative_shard_vec pos
      in (case HitscanBeam_init get_slope get_sign pos shard_vec None None of
            Inl e \<Rightarrow> Inl e
          | Inr b \<Rightarrow>
              activate_loop get_slope get_sign polar_to_cartesian self angle_fraction pos is
                (explosion_beams @ [b])))"

definition activate ::
  "(vec2 \<Rightarrow> vec2 \<Rightarrow> error + 's) \<Rightarrow> (double \<Rightarrow> error + 'g) \<Rightarrow>
   (double \<Rightarrow> double \<Rightarrow> vec2) \<Rightarrow>
   radial_explosives \<Rightarrow> vec2 \<Rightarrow> error + ('s, 'g) hitscan_beam list"
where
  "activate get_slope get_sign polar_to_cartesian self pos =
     (if num_shards self = 0 then Inl ZeroDivisionError
      else activate_loop get_slope get_sign polar_to_cartesian self
             (fdiv (fround False (2 * pi)) (fround False (real_of_int (num_shards self))))
             pos [0 ..< nat (num_shards self)] [])"

text \<open>A beam and a store for concrete runs of \<open>step\<close>: the owner is object 0, the
  hit player object 1, with the given health and time of death.\<close>

definition ex_beam :: "(nat, double) sim_hitscan_beam" where
  "ex_beam =
     \<lparr>delta_y = Finite 0, delta_x = Finite 1, direction_vector = (Finite 1, Finite 0),
      start_point = (Finite 0, Finite 0), end_point = (Finite 1, Finite 0), damage = 10,
      collision_force = Finite 50, slope = 0, quadrant_info = (Finite 1, Finite 0),
      player = 0, beam_uuid = 7\<rparr>"

definition ex_store :: "int \<Rightarrow> int option \<Rightarrow> store" where
  "ex_store h tod =
     (\<lambda>r. \<lparr>uuid = r, health = 100, velocity = (Finite 0, Finite 0), time_of_death = None,
          num_frags = 1\<rparr>)
     (1 := \<lparr>uuid = 1, health = h, velocity = (Finite 2, Finite 3), time_of_death = tod,
            num_frags = 0\<rparr>)"

section \<open>Weapons and their cooldown\<close>

record weapon =
  fire_rate_hz :: real
  seconds_per_shot :: real
  time_since_last_shot :: real

text \<open>
  \<open>Weapon.__init__\<close>, lines 13 to 20: the division raises on a rate of zero, and the
  time since the last shot starts at a value with which the weapon can shoot at once.
\<close>

definition Weapon_init :: "real \<Rightarrow> error + weapon" where
  "Weapon_init hz =
     (if hz = 0 then Inl ZeroDivisionError
      else Inr \<lparr>fire_rate_hz = hz, seconds_per_shot = 1 / hz, time_since_last_shot = 1 / hz\<rparr>)"



section \<open>The server: shared state and the tick\<close>

text \<open>
  An input is the tuple \<open>(player_id, dx, dy, dm, delta_time)\<close> that the tick takes
  from the queue. \<open>id_to_player\<close> is a dictionary; its values are visited in the
  order of insertion, so it is a list of key and value. \<open>ServerPlayer\<close> belongs to
  another module: a player is a value of the type \<open>'p\<close>, and what the server calls
  on it is collected in an \<open>env\<close>, together with \<open>pickle.dumps\<close> and with the
  outcome of \<open>sendall\<close> on each socket (\<open>True\<close>: the bytes are sent; \<open>False\<close>: the call
  raises).
\<close>

type_synonym byte = "8 word"

type_synonym input = "int \<times> real \<times> real \<times> real \<times> real"

record ('p, 'u) env =
  update_position :: "real \<Rightarrow> real \<Rightarrow> real \<Rightarrow> 'p \<Rightarrow> 'p"
  update_aim :: "real \<Rightarrow> 'p \<Rightarrow> 'p"
  get_sendable_state :: "'p \<Rightarrow> 'u"
  socket :: "'p \<Rightarrow> nat"
  dumps :: "'u list \<Rightarrow> byte list"
  sendall_ok :: "nat \<Rightarrow> bool"

record ('p, 'u) server_state =
  state_queue :: "input list"
  id_to_player :: "(int \<times> 'p) list"
  server_updates :: "'u list"
  closed_sockets :: "nat set"

text \<open>
  Lines 126 to 128: the two calls on the player stored under \<open>player_id\<close>. The player
  object is changed in place, so the dictionary keeps its keys and their order.
\<close>

definition apply_input :: "('p, 'u) env \<Rightarrow> input \<Rightarrow> 'p \<Rightarrow> 'p" where
  "apply_input e m p =
     (case m of (player_id, dx, dy, dm, delta_time) \<Rightarrow>
        update_aim e dm (update_position e dx dy delta_time p))"

definition update_player :: "int \<Rightarrow> ('p \<Rightarrow> 'p) \<Rightarrow> (int \<times> 'p) list \<Rightarrow> (int \<times> 'p) list" where
  "update_player k f players = map (\<lambda>(k', p). if k' = k then (k', f p) else (k', p)) players"

text \<open>
  Lines 121 to 128, run while \<open>q_drain_lock\<close> is held: the loop takes inputs from the
  head of the queue until the queue is empty; an input for an identifier that is not
  in the dictionary is dropped.
\<close>

fun drain :: "('p, 'u) env \<Rightarrow> input list \<Rightarrow> (int \<times> 'p) list \<Rightarrow> input list \<times> (int \<times> 'p) list" where
  "drain e [] players = ([], players)"
| "drain e (m # queue) players =
     (if fst m \<in> fst ` set players
      then drain e queue (update_player (fst m) (apply_input e m) players)
      else drain e queue players)"

text \<open>Lines 135 and 136: one sendable state per value of the dictionary.\<close>

definition collect_updates :: "('p, 'u) env \<Rightarrow> 'u list \<Rightarrow> (int \<times> 'p) list \<Rightarrow> 'u list" where
  "collect_updates e updates players = updates @ map (\<lambda>(k, p). get_sendable_state e p) players"

text \<open>
  \<open>sendall\<close> on a socket: it raises on a socket that the thread of its connection has
  closed (line 77), and wherever else the \<open>env\<close> says so.
\<close>

definition can_send :: "('p, 'u) env \<Rightarrow> nat set \<Rightarrow> nat \<Rightarrow> bool" where
  "can_send e shut c = (c \<notin> shut \<and> sendall_ok e c)"

text \<open>
  Lines 139 to 141: \<open>p.socket.sendall(pickle.dumps(server_updates))\<close> for each value
  of the dictionary. Nothing catches an exception of \<open>sendall\<close>, so the first one
  ends the loop. The result is the list of what was sent, as socket and bytes, and the
  exception if there was one.
\<close>

fun broadcast ::
  "('p, 'u) env \<Rightarrow> nat set \<Rightarrow> 'u list \<Rightarrow> (int \<times> 'p) list \<Rightarrow> (nat \<times> byte list) list \<Rightarrow>
   (nat \<times> byte list) list \<times> error option"
where
  "broadcast e shut updates [] sent = (sent, None)"
| "broadcast e shut updates ((k, p) # players) sent =
     (if can_send e shut (socket e p)
      then broadcast e shut updates players (sent @ [(socket e p, dumps e updates)])
      else (sent, Some SendError))"

text \<open>
  One pass of the loop of lines 115 to 146: drain, collect, send, reset. The result is
  what was sent, the shared state after the pass, and the exception that ended the
  loop, if any; after an exception \<open>server_updates\<close> is not reset.
\<close>

definition tick ::
  "('p, 'u) env \<Rightarrow> ('p, 'u) server_state \<Rightarrow>
   (nat \<times> byte list) list \<times> ('p, 'u) server_state \<times> error option"
where
  "tick e s =
     (let (queue1, players1) = drain e (state_queue s) (id_to_player s);
          s1 = s\<lparr>state_queue := queue1, id_to_player := players1\<rparr>;
          updates = collect_updates e (server_updates s1) (id_to_player s1);
          s2 = s1\<lparr>server_updates := updates\<rparr>;
          (sent, exc) =
            broadcast e (closed_sockets s2) (server_updates s2) (id_to_player s2) []
      in (case exc of
            Some x \<Rightarrow> (sent, s2, Some x)
          | None \<Rightarrow> (sent, s2\<lparr>server_updates := []\<rparr>, None)))"

text \<open>
  The acceptor does not take \<open>q_drain_lock\<close>, so it may insert players while the drain
  runs. \<open>drain_arrivals\<close> is the drain with such insertions: before the tick takes the
  next input the acceptor inserts the players at the head of \<open>arrivals\<close>, under new
  keys, at the end of the dictionary.
\<close>

fun drain_arrivals ::
  "('p, 'u) env \<Rightarrow> input list \<Rightarrow> (int \<times> 'p) list list \<Rightarrow> (int \<times> 'p) list \<Rightarrow>
   input list \<times> (int \<times> 'p) list"
where
  "drain_arrivals e [] arrivals players = ([], players)"
| "drain_arrivals e (m # queue) arrivals players =
     (let players0 = players @ (case arrivals of [] \<Rightarrow> [] | a # later \<Rightarrow> a) in
      if fst m \<in> fst ` set players0
      then drain_arrivals e queue (tl arrivals)
             (update_player (fst m) (apply_input e m) players0)
      else drain_arrivals e queue (tl arrivals) players0)"

section \<open>The server: one thread per connection\<close>







section \<open>The server: threads and locks\<close>

text \<open>
  The three kinds of thread of \<open>server.py\<close> and where each of them stands. A lock is
  free or taken; the thread that took it holds it until it releases it. A thread
  that dies of an exception releases nothing.
\<close>

datatype thread = TickThread | Acceptor | Producer nat

text \<open>
  The tick loop, lines 115 to 146: about to take \<open>q_drain_lock\<close> (line 119), in the
  drain with the lock (lines 121 to 128), about to take \<open>player_lock\<close> (line 132),
  collecting and sending with the lock (lines 135 to 144), or dead of an exception
  raised in the drain or in the sending.
\<close>

datatype tick_pc = T_acquire_q | T_drain | T_acquire_p | T_send | T_raised_drain | T_raised_send

text \<open>
  \<open>threaded_server_acceptor\<close>, lines 85 to 100: in \<open>accept\<close> and the first send (lines
  86 to 88), about to take \<open>player_lock\<close> (line 90), inserting the player with the
  lock (line 92), starting the thread of the connection (lines 97 to 100), or dead.
\<close>

datatype acceptor_pc = A_accept | A_acquire_p | A_insert | A_spawn | A_raised

text \<open>
  \<open>client_state_producer\<close>, lines 47 to 77: in \<open>recv\<close> (line 49), at the head of the
  loop over the records (line 63), about to take \<open>q_drain_lock\<close> (line 65), putting a
  record with the lock (line 67), or after the loop (lines 76 and 77), where the
  thread ends.
\<close>

datatype producer_pc = P_recv | P_records | P_acquire_q | P_put | P_closed

record system =
  q_drain_lock :: "thread option"
  player_lock :: "thread option"
  tick_at :: tick_pc
  acceptor_at :: acceptor_pc
  producers :: "producer_pc list"

text \<open>
  Lines 105 to 112: both locks are free, the acceptor has been started, no connection
  has a thread yet.
\<close>

definition init_system :: system where
  "init_system =
     \<lparr>q_drain_lock = None, player_lock = None, tick_at = T_acquire_q,
      acceptor_at = A_accept, producers = []\<rparr>"

text \<open>
  The steps a thread can take. \<open>acquire\<close> is a step only while the lock is free. In the
  drain and in the sending a step is one pass of the inner loop, an exception, or the
  release that follows the loop.
\<close>

definition tick_next :: "system \<Rightarrow> system list" where
  "tick_next s =
     (case tick_at s of
        T_acquire_q \<Rightarrow>
          (if q_drain_lock s = None
           then [s\<lparr>q_drain_lock := Some TickThread, tick_at := T_drain\<rparr>] else [])
      | T_drain \<Rightarrow>
          [s, s\<lparr>tick_at := T_raised_drain\<rparr>, s\<lparr>q_drain_lock := None, tick_at := T_acquire_p\<rparr>]
      | T_acquire_p \<Rightarrow>
          (if player_lock s = None
           then [s\<lparr>player_lock := Some TickThread, tick_at := T_send\<rparr>] else [])
      | T_send \<Rightarrow>
          [s, s\<lparr>tick_at := T_raised_send\<rparr>, s\<lparr>player_lock := None, tick_at := T_acquire_q\<rparr>]
      | T_raised_drain \<Rightarrow> []
      | T_raised_send \<Rightarrow> [])"

definition acceptor_next :: "system \<Rightarrow> system list" where
  "acceptor_next s =
     (case acceptor_at s of
        A_accept \<Rightarrow> [s\<lparr>acceptor_at := A_acquire_p\<rparr>, s\<lparr>acceptor_at := A_raised\<rparr>]
      | A_acquire_p \<Rightarrow>
          (if player_lock s = None
           then [s\<lparr>player_lock := Some Acceptor, acceptor_at := A_insert\<rparr>] else [])
      | A_insert \<Rightarrow>
          [s\<lparr>player_lock := None, acceptor_at := A_spawn\<rparr>, s\<lparr>acceptor_at := A_raised\<rparr>]
      | A_spawn \<Rightarrow>
          [s\<lparr>acceptor_at := A_accept, producers := producers s @ [P_recv]\<rparr>,
           s\<lparr>acceptor_at := A_raised\<rparr>]
      | A_raised \<Rightarrow> [])"

text \<open>
  In the thread of connection \<open>i\<close> an exception between \<open>acquire\<close> and \<open>release\<close> is
  caught by the \<open>except\<close> of line 71, which leaves the loop: the thread ends and the
  lock stays taken.
\<close>

definition producer_next :: "system \<Rightarrow> nat \<Rightarrow> system list" where
  "producer_next s i =
     (if i < length (producers s) then
        (case producers s ! i of
           P_recv \<Rightarrow>
             [s\<lparr>producers := (producers s)[i := P_records]\<rparr>,
              s\<lparr>producers := (producers s)[i := P_closed]\<rparr>]
         | P_records \<Rightarrow>
             [s\<lparr>producers := (producers s)[i := P_acquire_q]\<rparr>,
              s\<lparr>producers := (producers s)[i := P_recv]\<rparr>]
         | P_acquire_q \<Rightarrow>
             (if q_drain_lock s = None
              then [s\<lparr>q_drain_lock := Some (Producer i),
                      producers := (producers s)[i := P_put]\<rparr>]
              else [])
         | P_put \<Rightarrow>
             [s\<lparr>q_drain_lock := None, producers := (producers s)[i := P_records]\<rparr>,
              s\<lparr>producers := (producers s)[i := P_closed]\<rparr>]
         | P_closed \<Rightarrow> [])
      else [])"

definition next_states :: "system \<Rightarrow> system list" where
  "next_states s =
     tick_next s @ acceptor_next s @ concat (map (producer_next s) [0 ..< length (producers s)])"

text \<open>The states that some interleaving of the threads reaches.\<close>

inductive reachable :: "system \<Rightarrow> bool" where
  reachable_init: "reachable init_system"
| reachable_step: "reachable s \<Longrightarrow> s' \<in> set (next_states s) \<Longrightarrow> reachable s'"

text \<open>
  An interleaving given by its choices: at each step the number of the successor
  taken. \<open>None\<close> when a choice names no successor.
\<close>

fun run_choices :: "nat list \<Rightarrow> system \<Rightarrow> system option" where
  "run_choices [] s = Some s"
| "run_choices (k # ks) s =
     (if k < length (next_states s) then run_choices ks (next_states s ! k) else None)"

text \<open>
  What relates the locks to the places of the threads: the tick thread holds
  \<open>q_drain_lock\<close> only in the drain and \<open>player_lock\<close> only in the sending (or dead
  there), the acceptor never holds \<open>q_drain_lock\<close>, and the thread of a connection
  never holds \<open>player_lock\<close>.
\<close>

definition lock_inv :: "system \<Rightarrow> bool" where
  "lock_inv s \<longleftrightarrow>
     (q_drain_lock s = Some TickThread \<longrightarrow> tick_at s = T_drain \<or> tick_at s = T_raised_drain) \<and>
     (player_lock s = Some TickThread \<longrightarrow> tick_at s = T_send \<or> tick_at s = T_raised_send) \<and>
     q_drain_lock s \<noteq> Some Acceptor \<and>
     (\<forall>i. player_lock s \<noteq> Some (Producer i))"

text \<open>
  What relates the queue's lock to the places of the threads: in the drain the tick
  thread holds \<open>q_drain_lock\<close>, and a thread of a connection that is putting a record
  holds it.
\<close>

definition queue_inv :: "system \<Rightarrow> bool" where
  "queue_inv s \<longleftrightarrow>
     (tick_at s = T_drain \<longrightarrow> q_drain_lock s = Some TickThread) \<and>
     (\<forall>i < length (producers s). producers s ! i = P_put \<longrightarrow> q_drain_lock s = Some (Producer i))"

section \<open>The client: reading a message from the stream\<close>

text \<open>
  The stream the client reads is the list of chunks in which the bytes arrive; a call
  of \<open>socket.recv\<close> returns bytes of the first chunk.

  Modelled from the spec: \<open>helpers.recv_exactly\<close> is missing from the sources at
  hand. By the spec the receiver reassembles a message regardless of how the stream
  chunks the bytes, so \<open>recv_exactly sock n\<close> reads on until it has \<open>n\<close> bytes. The
  result is the bytes and the rest of the stream, or \<open>None\<close> when the chunks at hand
  end first (the read is still waiting, or the connection has ended).
\<close>

fun recv_exactly :: "nat \<Rightarrow> byte list list \<Rightarrow> (byte list \<times> byte list list) option" where
  "recv_exactly 0 chunks = Some ([], chunks)"
| "recv_exactly (Suc n) [] = None"
| "recv_exactly (Suc n) (c # chunks) =
     (if c = [] then None
      else if length c \<le> Suc n then
        (case recv_exactly (Suc n - length c) chunks of
           None \<Rightarrow> None
         | Some (bs, rest) \<Rightarrow> Some (c @ bs, rest))
      else Some (take (Suc n) c, drop (Suc n) c # chunks))"

text \<open>\<open>int.from_bytes(size_bytes, "little")\<close>.\<close>

definition from_bytes_little :: "byte list \<Rightarrow> nat" where
  "from_bytes_little bs = foldr (\<lambda>b acc. unat b + 256 * acc) bs 0"

text \<open>
  \<open>game_state_watcher\<close>, lines 44 to 46, one pass of its loop: four bytes of size,
  then that many bytes, which go to \<open>pickle.loads\<close>.
\<close>

definition game_state_watcher :: "byte list list \<Rightarrow> (byte list \<times> byte list list) option" where
  "game_state_watcher chunks =
     (case recv_exactly 4 chunks of
        None \<Rightarrow> None
      | Some (size_bytes, rest) \<Rightarrow> recv_exactly (from_bytes_little size_bytes) rest)"

text \<open>
  A message as the client expects it: the size in four bytes, least significant
  first, then the payload.
\<close>

definition to_bytes_little4 :: "nat \<Rightarrow> byte list" where
  "to_bytes_little4 n =
     [of_nat n, of_nat (n div 256), of_nat (n div 65536), of_nat (n div 16777216)]"

definition length_prefixed :: "byte list \<Rightarrow> byte list" where
  "length_prefixed payload = to_bytes_little4 (length payload) @ payload"

section \<open>Concrete servers\<close>

text \<open>
  A small server for concrete runs. A player is its socket, a position on a line and
  an aim; its sendable state is position and aim. \<open>ok\<close> tells on which sockets
  \<open>sendall\<close> succeeds and \<open>d\<close> is the serialiser.
\<close>

definition ex_env ::
  "(nat \<Rightarrow> bool) \<Rightarrow> ((real \<times> real) list \<Rightarrow> byte list) \<Rightarrow> (nat \<times> real \<times> real, real \<times> real) env"
where
  "ex_env ok d =
     \<lparr>update_position = (\<lambda>dx dy dt p. (fst p, fst (snd p) + dx * dt, snd (snd p))),
      update_aim = (\<lambda>dm p. (fst p, fst (snd p), snd (snd p) + dm)),
      get_sendable_state = snd,
      socket = fst,
      dumps = d,
      sendall_ok = ok\<rparr>"

text \<open>A stand-in serialiser that writes the number of states and nothing else.\<close>

definition count_dumps :: "(real \<times> real) list \<Rightarrow> byte list" where
  "count_dumps us = [of_nat (length us)]"

text \<open>
  Two players, 0 on socket 10 and 1 on socket 20, and a queue of three inputs: two for
  player 0 and one for a player 5 that does not exist.
\<close>

definition ex_state :: "(nat \<times> real \<times> real, real \<times> real) server_state" where
  "ex_state =
     \<lparr>state_queue = [(0, 1, 0, 2, 1), (5, 1, 1, 1, 1), (0, 3, 0, 0, 1)],
      id_to_player = [(0, (10, 0, 0)), (1, (20, 7, 0))],
      server_updates = [],
      closed_sockets = {}\<rparr>"

text \<open>
  The 21 bytes of \<open>pickle.dumps([(0, 0)])\<close> in protocol 4, and a server with one
  player on socket 10 whose snapshot has these bytes.
\<close>

definition pickle_bytes :: "byte list" where
  "pickle_bytes =
     [128, 4, 149, 10, 0, 0, 0, 0, 0, 0, 0, 93, 148, 75, 0, 75, 0, 134, 148, 97, 46]"

definition ex_state1 :: "(nat \<times> real \<times> real, real \<times> real) server_state" where
  "ex_state1 =
     \<lparr>state_queue = [], id_to_player = [(0, (10, 0, 0))], server_updates = [],
      closed_sockets = {}\<rparr>"

section \<open>Properties of rounding\<close>


text \<open>
  A real of the form \<open>m * 2 ^ k\<close> with \<open>m\<close> of at most 53 bits and \<open>k\<close> not below
  \<open>- 1074\<close> is a double unless it is too large, and rounding leaves it as it is.
\<close>

lemma round_even_of_int: "round_even (of_int j) = j"
  by (simp add: round_even_def)

lemma fround_scaled:
  assumes m: "m \<noteq> 0" "\<bar>m\<bar> < 2 ^ 53" and k: "- 1074 \<le> k"
  shows "fround neg (of_int m * 2 powr of_int k) =
     (if 2 ^ 1024 \<le> \<bar>of_int m * 2 powr of_int k :: real\<bar> then signed_inf (m < 0)
      else Finite (of_int m * 2 powr of_int k))"
proof -
  let ?x = "of_int m * 2 powr of_int k :: real"
  have xne: "?x \<noteq> 0" using m by simp
  have ax: "\<bar>?x\<bar> = of_int \<bar>m\<bar> * 2 powr of_int k"
    by (simp add: abs_mult)
  have lo: "(2::real) powr of_int k \<le> \<bar>?x\<bar>"
  proof -
    from m have "1 \<le> \<bar>m\<bar>" by simp
    then have "(1::real) \<le> of_int \<bar>m\<bar>" by linarith
    then have "1 * 2 powr of_int k \<le> (of_int \<bar>m\<bar> :: real) * 2 powr of_int k"
      by (intro mult_right_mono) simp_all
    with ax show ?thesis by simp
  qed
  have hi: "\<bar>?x\<bar> < (2::real) powr of_int (k + 53)"
  proof -
    from m have "(of_int \<bar>m\<bar> :: real) < 2 ^ 53"
      by (metis of_int_less_numeral_power_cancel_iff)
    then have "(of_int \<bar>m\<bar> :: real) * 2 powr of_int k < 2 ^ 53 * 2 powr of_int k"
      by (intro mult_strict_right_mono) simp_all
    also have "\<dots> = (2::real) powr of_int (k + 53)"
      by (simp add: powr_add)
    finally show ?thesis using ax by simp
  qed
  define L where "L = \<lfloor>log 2 \<bar>?x\<bar>\<rfloor>"
  have Lk: "k \<le> L"
  proof -
    have "of_int k \<le> log 2 \<bar>?x\<bar>"
      using lo xne by (simp add: le_log_iff)
    then show ?thesis unfolding L_def by (simp add: le_floor_iff)
  qed
  have Lh: "L < k + 53"
  proof -
    have "log 2 \<bar>?x\<bar> < of_int (k + 53)"
      using hi xne by (simp add: log_less_iff)
    then show ?thesis unfolding L_def by (simp add: floor_less_iff)
  qed
  define e where "e = max (L - 52) (- 1074)"
  have ek: "e \<le> k" using Lh k by (simp add: e_def)
  define j where "j = m * 2 ^ nat (k - e)"
  have pk: "(2::real) powr of_int k = (2::real) ^ nat (k - e) * 2 powr of_int e"
  proof -
    have "(2::real) powr of_int k = 2 powr (of_int (k - e) + of_int e)" by simp
    also have "\<dots> = 2 powr of_int (k - e) * 2 powr of_int e"
      by (simp only: powr_add)
    also have "(2::real) powr of_int (k - e) = (2::real) ^ nat (k - e)"
      using ek powr_real_of_int [of 2 "k - e"] by (simp del: of_int_diff)
    finally show ?thesis .
  qed
  have q: "?x / 2 powr of_int e = of_int j"
    by (simp add: pk j_def)
  have y: "of_int j * 2 powr of_int e = ?x"
    by (simp add: pk j_def)
  have jne: "j \<noteq> 0" using m by (simp add: j_def)
  have sgn: "(?x < 0) = (m < 0)"
    by (simp add: mult_less_0_iff)
  show ?thesis
    unfolding fround_def
    using xne jne sgn
    by (simp add: L_def[symmetric] e_def[symmetric] Let_def q round_even_of_int y
        del: of_int_mult of_int_power)
qed


lemma fround_int:
  assumes "n \<noteq> 0" and "\<bar>n\<bar> < 2 ^ 53"
  shows "fround neg (of_int n) = Finite (of_int n)"
proof -
  have "(of_int \<bar>n\<bar> :: real) < 2 ^ 53"
    using assms(2) by (metis of_int_less_numeral_power_cancel_iff)
  then have "\<not> (2 ^ 1024 \<le> \<bar>of_int n :: real\<bar>)" by simp
  with fround_scaled [OF assms, of 0 neg] show ?thesis by simp
qed

lemma fround_numeral:
  "(numeral n :: int) < 2 ^ 53 \<Longrightarrow> fround neg (numeral n) = Finite (numeral n)"
  using fround_int [of "numeral n" neg] by simp



text \<open>A positive real below half the least positive double rounds to zero.\<close>

lemma fround_underflow:
  assumes "0 < x" and "x < 2 powr (- 1075)"
  shows "fround neg x = Finite 0"
proof -
  let ?c = "(2::real) powr (- 1074)"
  have "log 2 x < - 1075"
    using assms by (simp add: log_less_iff)
  then have fl: "\<lfloor>log 2 x\<rfloor> < - 1075"
    by (simp add: floor_less_iff)
  have ab: "\<bar>x\<bar> = x" using assms(1) by simp
  have "\<lfloor>log 2 x\<rfloor> - 52 \<le> (- 1074 :: int)"
    using fl by linarith
  then have e: "max (\<lfloor>log 2 x\<rfloor> - 52) (- 1074 :: int) = - 1074"
    by (rule max_absorb2)
  have cpos: "0 < ?c" by simp
  have "(2::real) powr (- 1075) = 2 powr (- 1074 + - 1)" by simp
  also have "\<dots> = ?c * 2 powr (- 1)" by (simp only: powr_add)
  also have "\<dots> = ?c / 2" by (simp add: powr_minus_divide)
  finally have "x < ?c / 2" using assms(2) by simp
  then have lt: "x / ?c < 1 / 2"
    using cpos by (simp add: field_simps)
  have pos: "0 < x / ?c" using assms(1) cpos by simp
  from lt pos assms(1) have fl0: "\<lfloor>x / ?c\<rfloor> = 0" by (simp add: floor_eq_iff)
  from lt fl0 have m0: "round_even (x / ?c) = 0"
    by (simp add: round_even_def Let_def)
  have "fround neg x =
      (let m = round_even (x / ?c); y = of_int m * ?c
       in if 2 ^ 1024 \<le> \<bar>y\<bar> then signed_inf (x < 0)
          else if m = 0 then signed_zero (x < 0) else Finite y)"
    using assms(1) by (simp add: fround_def ab e Let_def)
  also have "\<dots> = Finite 0"
    using assms(1) by (simp add: m0 Let_def signed_zero_def)
  finally show ?thesis .
qed

lemma fround_zero: "fround neg 0 = signed_zero neg"
  by (simp add: fround_def)

section \<open>Properties of beam construction\<close>




lemma fsqrt_zero: "fsqrt (Finite 0) = Finite 0"
  by (simp add: fsqrt_def fround_zero signed_zero_def)

lemma fadd_zero_zero: "fadd (Finite 0) (Finite 0) = Finite 0"
  by (simp add: fadd_def is_inf_def is_neg_def value_of_def fround_zero signed_zero_def)








lemma fsub_zero_right: "x \<noteq> 0 \<Longrightarrow> fsub (Finite x) (Finite 0) = fround (x < 0) x"
  by (simp add: fsub_def fadd_def fneg_def is_inf_def is_neg_def value_of_def)

lemma fsub_zero_zero: "fsub (Finite 0) (Finite 0) = Finite 0"
  by (simp add: fsub_def fadd_def fneg_def is_inf_def is_neg_def value_of_def fround_zero
      signed_zero_def)

lemma fmul_Finite: "fmul (Finite x) (Finite y) = fround ((x < 0) \<noteq> (y < 0)) (x * y)"
  by (simp add: fmul_def is_inf_def is_neg_def value_of_def)










text \<open>
  Distinct end points do not suffice for a beam to be constructed: the squares of a
  difference of \<open>2 ^ - 600\<close> round to zero, the computed length is zero, and the
  constructor raises.
\<close>

lemma beam_init_underflow_raises:
  "\<not> same_point (Finite 0, Finite 0) (Finite (2 powr (- 600)), Finite 0) \<and>
   HitscanBeam_init gs gg (Finite 0, Finite 0) (Finite (2 powr (- 600)), Finite 0)
     (Some cf) (Some d) = Inl ValueError"
proof -
  let ?t = "(2::real) powr (- 600)"
  have tpos: "0 < ?t" by simp
  have "fround False (of_int 1 * 2 powr of_int (- 600)) =
      (if 2 ^ 1024 \<le> \<bar>of_int 1 * 2 powr of_int (- 600) :: real\<bar> then signed_inf (1 < (0::int))
       else Finite (of_int 1 * 2 powr of_int (- 600)))"
    by (rule fround_scaled) simp_all
  moreover have "?t < 1" by (simp add: powr_less_one)
  then have "\<not> 2 ^ 1024 \<le> \<bar>?t\<bar>" by simp
  ultimately have r: "fround False ?t = Finite ?t" by simp
  have dx: "fsub (Finite ?t) (Finite 0) = Finite ?t"
    using tpos r by (simp add: fsub_zero_right)
  have "?t * ?t = 2 powr (- 1200)"
    by (simp add: powr_add [symmetric])
  moreover have "(2::real) powr (- 1200) < 2 powr (- 1075)"
    by (rule powr_less_mono) simp_all
  ultimately have "fround False (?t * ?t) = Finite 0"
    by (intro fround_underflow) simp_all
  then have sq: "fmul (Finite ?t) (Finite ?t) = Finite 0"
    using tpos by (simp add: fmul_Finite)
  have "vec_length (Finite ?t, Finite 0) = Finite 0"
    by (simp only: vec_length_def fst_conv snd_conv sq)
       (simp add: fmul_Finite fround_zero signed_zero_def fadd_zero_zero fsqrt_zero)
  then have n: "vec_normalize (Finite ?t, Finite 0) = Inl ValueError"
    by (simp add: vec_normalize_def is_zero_def)
  have ne: "\<not> same_point (Finite 0, Finite 0) (Finite ?t, Finite 0)"
    by (simp add: same_point_def feq_def is_zero_def)
  have "HitscanBeam_init gs gg (Finite 0, Finite 0) (Finite ?t, Finite 0) (Some cf) (Some d) =
      Inl ValueError"
    by (simp add: HitscanBeam_init_def vec_sub_def dx fsub_zero_zero n)
  with ne show ?thesis by simp
qed

section \<open>Properties of the radial explosive\<close>

lemma HitscanBeam_init_missing:
  "HitscanBeam_init gs gg a e None None = Inl TypeError"
  by (simp add: HitscanBeam_init_def)

text \<open>
  With any positive number of shards the first pass of the loop already raises: the
  constructor is called without its two required arguments.
\<close>

lemma activate_TypeError:
  assumes "0 < num_shards self"
  shows "activate gs gg p2c self pos = Inl TypeError"
proof -
  from assms have "[0 ..< nat (num_shards self)] = 0 # [1 ..< nat (num_shards self)]"
    by (simp add: upt_conv_Cons)
  with assms show ?thesis
    by (simp add: activate_def HitscanBeam_init_missing)
qed

text \<open>
  C2. The claim is that \<open>activate\<close> returns \<open>num_shards\<close> beams, the k-th from \<open>pos\<close>
  to \<open>pos\<close> plus the polar offset of length \<open>radius\<close> at angle \<open>k * 2 * pi / n\<close>. The
  code returns no list: with the default radius 100, power 750 and 32 shards at the
  origin, whatever the helpers compute, the call ends in \<open>TypeError\<close>.
\<close>

theorem activate_raises:
  "activate gs gg p2c \<lparr>radius = Finite 100, power = Finite 750, num_shards = 32\<rparr>
     (Finite 0, Finite 0) = Inl TypeError"
proof -
  have "[0 ..< nat 32] = 0 # [1 ..< 32]"
    by (simp add: upt_conv_Cons)
  then show ?thesis
    by (simp add: activate_def HitscanBeam_init_missing)
qed

section \<open>Properties of \<open>HitscanBeam.step\<close>\<close>

text \<open>
  C3. When the closest entity is a player of the simulation, its health drops by the
  beam's damage. A hit it survives adds \<open>direction_vector * collision_force\<close> to its
  velocity and leaves the time of death as it was; a hit that leaves the health at or
  below zero sets the velocity to zero and records the time of death unless one was
  recorded already. This holds as well when the owner of the beam is the player hit.
\<close>

theorem step_hit_player:
  assumes "closest = (Some hit, Some (Obj r))" and "uuid (st r) \<in> players"
  shows "health (step beam now closest players st r) = health (st r) - damage beam \<and>
     (0 < health (st r) - damage beam \<longrightarrow>
        velocity (step beam now closest players st r) =
          vec_add (velocity (st r)) (vec_scale (direction_vector beam) (collision_force beam)) \<and>
        time_of_death (step beam now closest players st r) = time_of_death (st r)) \<and>
     (health (st r) - damage beam \<le> 0 \<longrightarrow>
        velocity (step beam now closest players st r) = (Finite 0, Finite 0) \<and>
        time_of_death (step beam now closest players st r) =
          (case time_of_death (st r) of None \<Rightarrow> Some now | Some t \<Rightarrow> Some t))"
  using assms by (auto simp: step_def Let_def split: option.splits)

theorem step_hit_player_witness:
  "health (step ex_beam 2000 (Some (Finite 5, Finite 0), Some (Obj 1)) {0, 1} (ex_store 100 None) 1) = 90 \<and>
   velocity (step ex_beam 2000 (Some (Finite 5, Finite 0), Some (Obj 1)) {0, 1} (ex_store 100 None) 1) =
     (Finite 52, Finite 3) \<and>
   time_of_death (step ex_beam 2000 (Some (Finite 5, Finite 0), Some (Obj 1)) {0, 1} (ex_store 100 None) 1) = None \<and>
   health (step ex_beam 2000 (Some (Finite 5, Finite 0), Some (Obj 1)) {0, 1} (ex_store 10 None) 1) = 0 \<and>
   velocity (step ex_beam 2000 (Some (Finite 5, Finite 0), Some (Obj 1)) {0, 1} (ex_store 10 None) 1) =
     (Finite 0, Finite 0) \<and>
   time_of_death (step ex_beam 2000 (Some (Finite 5, Finite 0), Some (Obj 1)) {0, 1} (ex_store 10 None) 1) = Some 2000"
  using step_hit_player [of "(Some (Finite 5, Finite 0), Some (Obj 1))" "(Finite 5, Finite 0)" 1 "ex_store 100 None" "{0, 1}" ex_beam 2000]
    step_hit_player [of "(Some (Finite 5, Finite 0), Some (Obj 1))" "(Finite 5, Finite 0)" 1 "ex_store 10 None" "{0, 1}" ex_beam 2000]
  by (simp add: ex_beam_def ex_store_def vec_add_def vec_scale_def fadd_def fmul_def is_inf_def
      is_neg_def value_of_def fround_numeral fround_zero signed_zero_def)

text \<open>
  The frag counter of the beam's owner goes up on every hit that leaves the health at
  or below zero, whether or not a time of death was recorded before: the increment
  is outside the test of \<open>time_of_death\<close>.
\<close>

lemma step_frags_lethal:
  assumes "closest = (Some hit, Some (Obj r))" and "uuid (st r) \<in> players"
    and "health (st r) - damage beam \<le> 0"
  shows "num_frags (step beam now closest players st (player beam)) =
         num_frags (st (player beam)) + 1"
  using assms by (auto simp: step_def Let_def split: option.splits)

text \<open>
  C1. The claim is that a lethal hit on a player whose health is already at or below
  zero and whose time of death is set leaves the owner's frag counter unchanged. In
  the code it does not: player 1 is dead since tick 1000 with health 0, the owner
  (object 0) has one frag, and after the beam of damage 10 hits player 1 again the
  owner has two.
\<close>

theorem step_dead_player_frag:
  "num_frags (ex_store 0 (Some 1000) 0) = 1 \<and>
   health (ex_store 0 (Some 1000) 1) = 0 \<and>
   time_of_death (ex_store 0 (Some 1000) 1) = Some 1000 \<and>
   num_frags (step ex_beam 2000 (Some (Finite 5, Finite 0), Some (Obj 1)) {0, 1} (ex_store 0 (Some 1000)) 0) = 2"
  by (simp add: step_def ex_beam_def ex_store_def)

section \<open>Properties of the cooldown\<close>

lemma Weapon_init_ready:
  assumes "hz \<noteq> 0"
  shows "\<exists>w. Weapon_init hz = Inr w \<and> fire_rate_hz w = hz \<and>
           seconds_per_shot w = 1 / hz \<and> seconds_per_shot w \<le> time_since_last_shot w"
  using assms by (simp add: Weapon_init_def)





section \<open>Properties of the tick\<close>

lemma drain_fold:
  "drain e queue players =
     ([], map (\<lambda>(k, p). (k, foldl (\<lambda>p m. apply_input e m p) p (filter (\<lambda>m. fst m = k) queue))) players)"
proof (induction queue arbitrary: players)
  case Nil
  show ?case by (simp add: case_prod_unfold)
next
  case (Cons m queue)
  show ?case
  proof (cases "fst m \<in> fst ` set players")
    case True
    then show ?thesis
      by (simp add: Cons.IH update_player_def case_prod_unfold comp_def)
  next
    case False
    then have "\<And>k p. (k, p) \<in> set players \<Longrightarrow> fst m \<noteq> k"
      by force
    then show ?thesis using False
      by (auto simp: Cons.IH)
  qed
qed

lemma broadcast_sent:
  "fst (broadcast e shut updates players sent) =
     sent @ map (\<lambda>(k, p). (socket e p, dumps e updates))
              (takeWhile (\<lambda>(k, p). can_send e shut (socket e p)) players)"
  by (induction players arbitrary: sent) auto

lemma broadcast_exc:
  "snd (broadcast e shut updates players sent) =
     (if list_all (\<lambda>(k, p). can_send e shut (socket e p)) players
      then None else Some SendError)"
  by (induction players arbitrary: sent) auto


lemma tick_unfold:
  "tick e s =
     (let players1 = map (\<lambda>(k, p). (k, foldl (\<lambda>p m. apply_input e m p) p
                            (filter (\<lambda>m. fst m = k) (state_queue s)))) (id_to_player s);
          updates = collect_updates e (server_updates s) players1;
          r = broadcast e (closed_sockets s) updates players1 []
      in (fst r,
          s\<lparr>state_queue := [], id_to_player := players1,
            server_updates := (if snd r = None then [] else updates)\<rparr>,
          snd r))"
  by (simp add: tick_def drain_fold Let_def case_prod_unfold split: option.splits)

text \<open>
  C6. One pass of the tick empties the queue it finds and leaves every player as the
  inputs addressed to it make it, all of them and in the order of the queue; every
  message of the broadcast holds the sendable states of the players so updated. The
  queue cannot grow during the drain: a producer puts an input only with
  \<open>q_drain_lock\<close>, which the tick holds.
\<close>

theorem tick_applies_whole_queue:
  "state_queue (fst (snd (tick e s))) = [] \<and>
   id_to_player (fst (snd (tick e s))) =
     map (\<lambda>(k, p). (k, foldl (\<lambda>p m. apply_input e m p) p
                        (filter (\<lambda>m. fst m = k) (state_queue s)))) (id_to_player s) \<and>
   (\<forall>(sock, bytes) \<in> set (fst (tick e s)).
      bytes = dumps e (server_updates s @
        map (\<lambda>(k, p). get_sendable_state e (foldl (\<lambda>p m. apply_input e m p) p
                        (filter (\<lambda>m. fst m = k) (state_queue s)))) (id_to_player s)))"
  by (auto simp: tick_unfold Let_def broadcast_sent collect_updates_def comp_def
      case_prod_unfold dest: set_takeWhileD)

theorem tick_applies_whole_queue_witness:
  "state_queue (fst (snd (tick (ex_env (\<lambda>c. True) count_dumps) ex_state))) = [] \<and>
   id_to_player (fst (snd (tick (ex_env (\<lambda>c. True) count_dumps) ex_state))) =
     [(0, (10, 4, 2)), (1, (20, 7, 0))] \<and>
   fst (tick (ex_env (\<lambda>c. True) count_dumps) ex_state) = [(10, [2]), (20, [2])]"
  using tick_applies_whole_queue [of "ex_env (\<lambda>c. True) count_dumps" ex_state]
  by (simp add: tick_def ex_env_def ex_state_def apply_input_def update_player_def
      collect_updates_def count_dumps_def can_send_def)

text \<open>
  C5, as claimed: a failed send to one client does not keep the snapshot from the
  others. It does: with players on the sockets 10 and 20, in this order, and a
  \<open>sendall\<close> that raises on socket 10 only, nothing is sent to socket 20.
\<close>

theorem broadcast_stops_at_failure_counterexample:
  "map (\<lambda>(k, p). socket (ex_env (\<lambda>c. c \<noteq> 10) count_dumps) p) (id_to_player ex_state) = [10, 20] \<and>
   \<not> sendall_ok (ex_env (\<lambda>c. c \<noteq> 10) count_dumps) 10 \<and>
   sendall_ok (ex_env (\<lambda>c. c \<noteq> 10) count_dumps) 20 \<and>
   fst (tick (ex_env (\<lambda>c. c \<noteq> 10) count_dumps) ex_state) = []"
  by (simp add: tick_def ex_env_def ex_state_def apply_input_def update_player_def
      collect_updates_def count_dumps_def can_send_def)

text \<open>
  C5, amended. The snapshot goes to the clients in the order of the player map up to
  the first client whose send raises, and to no client after it; the exception ends
  the pass. When no send raises every client of the map gets the snapshot. A send
  raises on a closed socket and wherever the environment makes it fail.
\<close>

theorem tick_sends_until_first_failure:
  "fst (tick e s) =
     map (\<lambda>(k, p). (socket e p,
            dumps e (collect_updates e (server_updates s) (id_to_player (fst (snd (tick e s)))))))
       (takeWhile (\<lambda>(k, p). can_send e (closed_sockets s) (socket e p))
          (id_to_player (fst (snd (tick e s))))) \<and>
   snd (snd (tick e s)) =
     (if list_all (\<lambda>(k, p). can_send e (closed_sockets s) (socket e p))
           (id_to_player (fst (snd (tick e s))))
      then None else Some SendError)"
  by (simp add: tick_unfold Let_def broadcast_sent broadcast_exc)

theorem tick_sends_until_first_failure_witness:
  "fst (tick (ex_env (\<lambda>c. c \<noteq> 20) count_dumps) ex_state) = [(10, [2])] \<and>
   snd (snd (tick (ex_env (\<lambda>c. c \<noteq> 20) count_dumps) ex_state)) = Some SendError \<and>
   fst (tick (ex_env (\<lambda>c. True) count_dumps) ex_state) = [(10, [2]), (20, [2])] \<and>
   snd (snd (tick (ex_env (\<lambda>c. True) count_dumps) ex_state)) = None"
  using tick_sends_until_first_failure [of "ex_env (\<lambda>c. c \<noteq> 20) count_dumps" ex_state]
    tick_sends_until_first_failure [of "ex_env (\<lambda>c. True) count_dumps" ex_state]
  by (simp add: tick_def ex_env_def ex_state_def apply_input_def update_player_def
      collect_updates_def count_dumps_def can_send_def)

lemma update_player_append:
  "update_player k f (xs @ ys) = update_player k f xs @ update_player k f ys"
  by (simp add: update_player_def)

lemma length_update_player: "length (update_player k f xs) = length xs"
  by (simp add: update_player_def)

lemma update_player_absent:
  "k \<notin> fst ` set xs \<Longrightarrow> update_player k f xs = xs"
  by (induction xs) (auto simp: update_player_def)

text \<open>
  Players that the acceptor inserts while the drain runs change nothing for the
  players that were in the map when the drain began.
\<close>

lemma drain_arrivals_old_players:
  "take (length players) (snd (drain_arrivals e queue arrivals (players @ extra))) =
   snd (drain e queue players)"
proof (induction queue arbitrary: players extra arrivals)
  case Nil
  show ?case by simp
next
  case (Cons m queue)
  let ?new = "extra @ (case arrivals of [] \<Rightarrow> [] | a # later \<Rightarrow> a)"
  let ?f = "apply_input e m"
  show ?case
  proof (cases "fst m \<in> fst ` set players")
    case True
    then have "fst m \<in> fst ` set (players @ ?new)" by auto
    moreover have "take (length (update_player (fst m) ?f players))
        (snd (drain_arrivals e queue (tl arrivals)
           (update_player (fst m) ?f players @ update_player (fst m) ?f ?new))) =
        snd (drain e queue (update_player (fst m) ?f players))"
      by (rule Cons.IH)
    ultimately show ?thesis using True
      by (simp add: Let_def update_player_append length_update_player del: append_assoc
          add: append_assoc[symmetric])
  next
    case False
    have a: "take (length players)
        (snd (drain_arrivals e queue (tl arrivals)
           (players @ update_player (fst m) ?f ?new))) = snd (drain e queue players)"
      by (rule Cons.IH)
    have b: "take (length players)
        (snd (drain_arrivals e queue (tl arrivals) (players @ ?new))) = snd (drain e queue players)"
      by (rule Cons.IH)
    from False have "update_player (fst m) ?f players = players"
      by (rule update_player_absent)
    with a b False show ?thesis
      by (simp add: Let_def update_player_append)
  qed
qed

section \<open>Properties of the connection threads\<close>


lemma update_player_keys: "map fst (update_player k f players) = map fst players"
  by (induction players) (auto simp: update_player_def)

lemma drain_keys: "map fst (snd (drain e queue players)) = map fst players"
  by (induction queue arbitrary: players) (auto simp: update_player_keys)

lemma tick_keys: "map fst (id_to_player (fst (snd (tick e s)))) = map fst (id_to_player s)"
  by (simp add: tick_def Let_def case_prod_unfold drain_keys split: option.splits)




section \<open>Properties of the locks\<close>

lemma lock_inv_init: "lock_inv init_system"
  by (simp add: lock_inv_def init_system_def)

lemma lock_inv_tick: "lock_inv s \<Longrightarrow> s' \<in> set (tick_next s) \<Longrightarrow> lock_inv s'"
  by (auto simp: lock_inv_def tick_next_def split: tick_pc.splits if_splits)

lemma lock_inv_acceptor: "lock_inv s \<Longrightarrow> s' \<in> set (acceptor_next s) \<Longrightarrow> lock_inv s'"
  by (auto simp: lock_inv_def acceptor_next_def split: acceptor_pc.splits if_splits)

lemma lock_inv_producer: "lock_inv s \<Longrightarrow> s' \<in> set (producer_next s i) \<Longrightarrow> lock_inv s'"
  by (auto simp: lock_inv_def producer_next_def split: producer_pc.splits if_splits)

lemma lock_inv_step: "lock_inv s \<Longrightarrow> s' \<in> set (next_states s) \<Longrightarrow> lock_inv s'"
  by (auto simp: next_states_def dest: lock_inv_tick lock_inv_acceptor lock_inv_producer)

lemma reachable_lock_inv: "reachable s \<Longrightarrow> lock_inv s"
  by (induction rule: reachable.induct) (auto intro: lock_inv_init lock_inv_step)

lemma run_choices_reachable:
  "reachable s \<Longrightarrow> run_choices ks s = Some s' \<Longrightarrow> reachable s'"
proof (induction ks arbitrary: s)
  case Nil
  then show ?case by simp
next
  case (Cons k ks)
  from Cons.prems(2) have k: "k < length (next_states s)"
    and r: "run_choices ks (next_states s ! k) = Some s'"
    by (auto split: if_splits)
  from k have "next_states s ! k \<in> set (next_states s)" by simp
  with Cons.prems(1) have "reachable (next_states s ! k)" by (rule reachable_step)
  from Cons.IH [OF this r] show ?case .
qed

text \<open>
  C7. In every state that an interleaving of the tick thread, the acceptor and the
  threads of the connections reaches, no thread holds \<open>q_drain_lock\<close> and
  \<open>player_lock\<close> at the same time.
\<close>

theorem locks_never_both_held:
  assumes "reachable s" and "q_drain_lock s = Some t"
  shows "player_lock s \<noteq> Some t"
proof
  assume p: "player_lock s = Some t"
  from assms(1) have inv: "lock_inv s" by (rule reachable_lock_inv)
  show False
  proof (cases t)
    case TickThread
    with inv assms(2) p show False by (auto simp: lock_inv_def)
  next
    case Acceptor
    with inv assms(2) show False by (simp add: lock_inv_def)
  next
    case (Producer i)
    with inv p show False by (simp add: lock_inv_def)
  qed
qed

text \<open>
  An interleaving of ten steps: the acceptor takes a connection, inserts the player
  and starts its thread; the tick drains and goes on to send; the thread of the
  connection receives a record and takes \<open>q_drain_lock\<close>. Both locks are then taken,
  by different threads.
\<close>

lemma run_choices_example: "run_choices [1, 1, 1, 1, 0, 2, 0, 5, 5, 5] init_system =
     Some \<lparr>q_drain_lock = Some (Producer 0), player_lock = Some TickThread, tick_at = T_send,
           acceptor_at = A_accept, producers = [P_put]\<rparr>"
  by (simp add: next_states_def tick_next_def acceptor_next_def producer_next_def init_system_def)

theorem locks_never_both_held_witness:
  "reachable \<lparr>q_drain_lock = Some (Producer 0), player_lock = Some TickThread,
      tick_at = T_send, acceptor_at = A_accept, producers = [P_put]\<rparr> \<and>
   q_drain_lock \<lparr>q_drain_lock = Some (Producer 0), player_lock = Some TickThread,
      tick_at = T_send, acceptor_at = A_accept, producers = [P_put]\<rparr> = Some (Producer 0) \<and>
   player_lock \<lparr>q_drain_lock = Some (Producer 0), player_lock = Some TickThread,
      tick_at = T_send, acceptor_at = A_accept, producers = [P_put]\<rparr> \<noteq> Some (Producer 0)"
proof -
  have r: "reachable \<lparr>q_drain_lock = Some (Producer 0), player_lock = Some TickThread,
      tick_at = T_send, acceptor_at = A_accept, producers = [P_put]\<rparr>"
    by (rule run_choices_reachable [OF reachable_init run_choices_example])
  from r locks_never_both_held [OF r, of "Producer 0"] show ?thesis by simp
qed

lemma queue_inv_init: "queue_inv init_system"
  by (simp add: queue_inv_def init_system_def)

lemma queue_inv_tick: "queue_inv s \<Longrightarrow> s' \<in> set (tick_next s) \<Longrightarrow> queue_inv s'"
  by (auto simp: queue_inv_def tick_next_def split: tick_pc.splits if_splits)

lemma queue_inv_acceptor: "queue_inv s \<Longrightarrow> s' \<in> set (acceptor_next s) \<Longrightarrow> queue_inv s'"
  by (auto simp: queue_inv_def acceptor_next_def nth_append split: acceptor_pc.splits if_splits)

lemma queue_inv_producer: "queue_inv s \<Longrightarrow> s' \<in> set (producer_next s i) \<Longrightarrow> queue_inv s'"
proof -
  assume inv: "queue_inv s" and step: "s' \<in> set (producer_next s i)"
  have one: "\<And>j. producers s ! i = P_put \<Longrightarrow> i < length (producers s) \<Longrightarrow>
      j < length (producers s) \<Longrightarrow> producers s ! j = P_put \<Longrightarrow> j = i"
  proof -
    fix j
    assume "producers s ! i = P_put" and "i < length (producers s)"
      and "j < length (producers s)" and "producers s ! j = P_put"
    moreover from inv have "\<And>k. k < length (producers s) \<Longrightarrow> producers s ! k = P_put \<Longrightarrow>
        q_drain_lock s = Some (Producer k)"
      by (simp add: queue_inv_def)
    ultimately have "q_drain_lock s = Some (Producer i)" and "q_drain_lock s = Some (Producer j)"
      by blast+
    then show "j = i" by simp
  qed
  from inv step show ?thesis
    by (auto simp: queue_inv_def producer_next_def nth_list_update
        split: producer_pc.splits if_splits dest: one)
qed

lemma queue_inv_step: "queue_inv s \<Longrightarrow> s' \<in> set (next_states s) \<Longrightarrow> queue_inv s'"
  by (auto simp: next_states_def dest: queue_inv_tick queue_inv_acceptor queue_inv_producer)

lemma reachable_queue_inv: "reachable s \<Longrightarrow> queue_inv s"
  by (induction rule: reachable.induct) (auto intro: queue_inv_init queue_inv_step)

text \<open>
  While the tick thread is in the drain no thread of a connection is putting a record:
  the queue the drain takes its inputs from does not grow under it.
\<close>

lemma drain_excludes_put:
  assumes "reachable s" and "tick_at s = T_drain" and "i < length (producers s)"
  shows "producers s ! i \<noteq> P_put"
  using reachable_queue_inv [OF assms(1)] assms(2,3)
  by (auto simp: queue_inv_def)

section \<open>Properties of the framing\<close>


lemma unat_byte_of_nat: "unat (of_nat n :: byte) = n mod 256"
  by (simp add: unat_of_nat)

lemma from_bytes_little_to_bytes:
  assumes "n < 4294967296"
  shows "from_bytes_little (to_bytes_little4 n) = n"
proof -
  have "n div 16777216 < 256" using assms by simp
  then have top: "n div 16777216 mod 256 = n div 16777216" by simp
  have a: "n div 65536 = n div 256 div 256" by (simp add: div_mult2_eq[symmetric])
  have b: "n div 16777216 = n div 256 div 256 div 256" by (simp add: div_mult2_eq[symmetric])
  show ?thesis
    unfolding from_bytes_little_def to_bytes_little4_def
    using top by (simp add: unat_byte_of_nat a b)
qed

lemma recv_exactly_concat:
  assumes "concat chunks = xs @ ys" and "[] \<notin> set chunks"
  shows "\<exists>rest. recv_exactly (length xs) chunks = Some (xs, rest) \<and> concat rest = ys \<and>
           [] \<notin> set rest"
  using assms
proof (induction chunks arbitrary: xs)
  case Nil
  then show ?case by simp
next
  case (Cons c chunks)
  show ?case
  proof (cases xs)
    case Nil
    with Cons.prems show ?thesis by simp
  next
    case (Cons x xs')
    from Cons.prems(2) have cne: "c \<noteq> []" by auto
    show ?thesis
    proof (cases "length c \<le> length xs")
      case True
      with Cons.prems(1) have c: "c = take (length c) xs"
        and rest: "concat chunks = drop (length c) xs @ ys"
        by (auto simp: append_eq_append_conv_if)
      from Cons.prems(2) have "[] \<notin> set chunks" by simp
      from Cons.IH [OF rest this] obtain r where
        r: "recv_exactly (length (drop (length c) xs)) chunks = Some (drop (length c) xs, r)"
        and cr: "concat r = ys" and rne: "[] \<notin> set r" by blast
      have r': "recv_exactly (length xs - length c) chunks = Some (drop (length c) xs, r)"
        using r by simp
      have app: "c @ drop (length c) xs = xs"
        using c by (metis append_take_drop_id)
      have "recv_exactly (length xs) (c # chunks) = Some (c @ drop (length c) xs, r)"
        using True cne r' Cons by simp
      with app cr rne show ?thesis by simp
    next
      case False
      with Cons.prems(1) have "take (length xs) c = xs" and "drop (length xs) c @ concat chunks = ys"
        by (auto simp: append_eq_append_conv_if)
      with False cne Cons Cons.prems(2) show ?thesis
        by auto
    qed
  qed
qed

lemma length_to_bytes_little4: "length (to_bytes_little4 n) = 4"
  by (simp add: to_bytes_little4_def)

lemma game_state_watcher_roundtrip:
  assumes "concat chunks = length_prefixed payload @ later"
    and "[] \<notin> set chunks" and "length payload < 4294967296"
  shows "\<exists>rest. game_state_watcher chunks = Some (payload, rest) \<and> concat rest = later"
proof -
  from assms(1) have "concat chunks = to_bytes_little4 (length payload) @ (payload @ later)"
    by (simp add: length_prefixed_def)
  from recv_exactly_concat [OF this assms(2)] obtain r1 where
    r1: "recv_exactly 4 chunks = Some (to_bytes_little4 (length payload), r1)"
    and c1: "concat r1 = payload @ later" and n1: "[] \<notin> set r1"
    by (auto simp: length_to_bytes_little4)
  from recv_exactly_concat [OF c1 n1] obtain r2 where
    "recv_exactly (length payload) r1 = Some (payload, r2)" and "concat r2 = later"
    by blast
  with r1 show ?thesis
    by (simp add: game_state_watcher_def from_bytes_little_to_bytes [OF assms(3)])
qed


lemma recv_exactly_Some:
  "recv_exactly n chunks = Some (xs, rest) \<Longrightarrow> concat chunks = xs @ concat rest \<and> length xs = n"
proof (induction n chunks arbitrary: xs rest rule: recv_exactly.induct)
  case (1 chunks)
  then show ?case by simp
next
  case (2 n)
  then show ?case by simp
next
  case (3 n c chunks)
  show ?case
  proof (cases "length c \<le> Suc n")
    case True
    with "3.prems" obtain bs where
      bs: "recv_exactly (Suc n - length c) chunks = Some (bs, rest)" and xs: "xs = c @ bs"
      and cne: "c \<noteq> []"
      by (auto split: if_splits option.splits)
    from "3.IH" [OF cne True bs] True xs show ?thesis by simp
  next
    case False
    with "3.prems" show ?thesis
      by (auto split: if_splits)
  qed
qed

lemma recv_exactly_short:
  "length (concat chunks) < n \<Longrightarrow> recv_exactly n chunks = None"
proof (cases "recv_exactly n chunks")
  case None
  then show ?thesis by simp
next
  case (Some r)
  assume short: "length (concat chunks) < n"
  obtain xs rest where "r = (xs, rest)" by (cases r)
  with Some have "concat chunks = xs @ concat rest \<and> length xs = n"
    by (simp add: recv_exactly_Some)
  with short show ?thesis by simp
qed

lemma recv_exactly_first_chunk:
  "0 < n \<Longrightarrow> n < length c \<Longrightarrow> recv_exactly n (c # chunks) = Some (take n c, drop n c # chunks)"
  by (cases n) auto

text \<open>Whatever the chunks, the client does not get back bytes that were sent as they are.\<close>

lemma game_state_watcher_unframed:
  assumes "game_state_watcher chunks = Some (payload, rest)"
  shows "payload \<noteq> concat chunks"
proof -
  from assms obtain size_bytes r1 where
    a: "recv_exactly 4 chunks = Some (size_bytes, r1)"
    and b: "recv_exactly (from_bytes_little size_bytes) r1 = Some (payload, rest)"
    by (auto simp: game_state_watcher_def split: option.splits)
  from recv_exactly_Some [OF a] recv_exactly_Some [OF b]
  have "length (concat chunks) = 4 + length payload + length (concat rest)"
    by simp
  then show ?thesis by auto
qed

text \<open>
  C9. The claim is that every message of the server is a size in four bytes followed
  by that many bytes, which the client puts together again. The server sends the
  bytes of \<open>pickle.dumps\<close> as they are, with no size before them. With one player on
  socket 10 and the snapshot \<open>[(0, 0)]\<close> the socket gets the 21 bytes of the pickle;
  the client takes the first four, \<open>80 04 95 0a\<close>, for the size 177538176 and finds
  no message in what was sent.
\<close>

theorem server_sends_unframed:
  "fst (tick (ex_env (\<lambda>c. True) (\<lambda>us. pickle_bytes)) ex_state1) = [(10, pickle_bytes)] \<and>
   pickle_bytes \<noteq> length_prefixed pickle_bytes \<and>
   recv_exactly 4 [pickle_bytes] =
     Some ([128, 4, 149, 10], [[0, 0, 0, 0, 0, 0, 0, 93, 148, 75, 0, 75, 0, 134, 148, 97, 46]]) \<and>
   from_bytes_little [128, 4, 149, 10] = 177538176 \<and>
   game_state_watcher [pickle_bytes] = None"
proof -
  have sent: "fst (tick (ex_env (\<lambda>c. True) (\<lambda>us. pickle_bytes)) ex_state1) = [(10, pickle_bytes)]"
    by (simp add: tick_def ex_env_def ex_state1_def collect_updates_def can_send_def)
  have neq: "pickle_bytes \<noteq> length_prefixed pickle_bytes"
    by (simp add: length_prefixed_def to_bytes_little4_def)
  have r4: "recv_exactly 4 [pickle_bytes] =
     Some ([128, 4, 149, 10], [[0, 0, 0, 0, 0, 0, 0, 93, 148, 75, 0, 75, 0, 134, 148, 97, 46]])"
    by (simp add: recv_exactly_first_chunk pickle_bytes_def)
  have sz: "from_bytes_little [128, 4, 149, 10] = 177538176"
    by (simp add: from_bytes_little_def)
  have "recv_exactly 177538176 [[0, 0, 0, 0, 0, 0, 0, 93, 148, 75, 0, 75, 0, 134, 148, 97, 46]] = None"
    by (rule recv_exactly_short) simp
  with r4 sz have w: "game_state_watcher [pickle_bytes] = None"
    by (simp add: game_state_watcher_def)
  from sent neq r4 sz w show ?thesis by simp
qed

end
